theory Spec2Isabelle
  imports Main "HOL-Library.Sublist"
begin

section \<open>Data model\<close>

text \<open>
  An asset as the image picker returns it and as \<^verbatim>\<open>App.tsx\<close> reads it: \<^verbatim>\<open>asset.uri\<close>
  (line 93), \<^verbatim>\<open>image.type\<close> and \<^verbatim>\<open>image.base64\<close> (line 136). The three fields are
  strings, as the data model of the specification has them.
\<close>

record asset =
  uri :: string
  type :: string
  base64 :: string

section \<open>The document composer\<close>

text \<open>
  The three template literals of \<^verbatim>\<open>generateHTMLContent\<close> (lines 106-131, 134-138 and
  141-144), character by character: every line break and every leading blank of the
  source is part of the string. \<^verbatim>\<open>html_head\<close> is the initial value of
  \<^verbatim>\<open>htmlContent\<close>, \<^verbatim>\<open>page_block\<close> the text appended for one image (the loop variable \<^verbatim>\<open>image\<close> is written
  \<^verbatim>\<open>img\<close>, since \<^verbatim>\<open>image\<close> is a constant of HOL) and
  \<^verbatim>\<open>html_tail\<close> the text appended after the loop.
\<close>

definition html_head :: string where
  \<open>html_head =
     ''\<newline>'' @
     ''      <!DOCTYPE html>\<newline>'' @
     ''      <html>\<newline>'' @
     ''        <head>\<newline>'' @
     ''          <style>\<newline>'' @
     ''            body { margin: 0; padding: 0; }\<newline>'' @
     ''            .page { \<newline>'' @
     ''              page-break-after: always;\<newline>'' @
     ''              margin: 0;\<newline>'' @
     ''              padding: 0;\<newline>'' @
     ''              width: 100%;\<newline>'' @
     ''              height: 100%;\<newline>'' @
     ''              display: flex;\<newline>'' @
     ''              justify-content: center;\<newline>'' @
     ''              align-items: center;\<newline>'' @
     ''            }\<newline>'' @
     ''            .page:last-child { page-break-after: auto; }\<newline>'' @
     ''            img {\<newline>'' @
     ''              max-width: 100%;\<newline>'' @
     ''              max-height: 100%;\<newline>'' @
     ''              object-fit: contain;\<newline>'' @
     ''            }\<newline>'' @
     ''          </style>\<newline>'' @
     ''        </head>\<newline>'' @
     ''        <body>\<newline>'' @
     ''    ''\<close>

definition page_block :: "asset \<Rightarrow> string" where
  \<open>page_block img =
     ''\<newline>'' @
     ''        <div class="page">\<newline>'' @
     ''          <img src="data:'' @ type img @ '';base64,'' @ base64 img @ ''" />\<newline>'' @
     ''        </div>\<newline>'' @
     ''      ''\<close>

definition html_tail :: string where
  \<open>html_tail =
     ''\<newline>'' @
     ''        </body>\<newline>'' @
     ''      </html>\<newline>'' @
     ''    ''\<close>

text \<open>
  \<^verbatim>\<open>selectedImages.forEach((image) => { htmlContent += ... })\<close> is a left fold over the
  list with \<^verbatim>\<open>htmlContent\<close> as the accumulator; the closing text is appended to what
  the loop leaves. The function reads \<^verbatim>\<open>selectedImages\<close> from the component state; the
  model takes that list as its argument \<^verbatim>\<open>images\<close>.
\<close>

definition generateHTMLContent :: "asset list \<Rightarrow> string" where
  "generateHTMLContent images =
     foldl (\<lambda>htmlContent img. htmlContent @ page_block img) html_head images @ html_tail"

subsection \<open>Reading a composed document back\<close>

text \<open>
  The data URI the specification asks for: \<^verbatim>\<open>data:<mimeType>;base64,<payload>\<close>.
\<close>

definition data_uri :: "asset \<Rightarrow> string" where
  "data_uri img = ''data:'' @ type img @ '';base64,'' @ base64 img"

text \<open>
  A reader for the markup, independent of the composer. \<^verbatim>\<open>scan_tags\<close> walks the text
  and returns what stands between each \<^verbatim>\<open><\<close> and the next \<^verbatim>\<open>>\<close>, in order of
  appearance; its first argument is \<^verbatim>\<open>None\<close> outside a tag and holds the characters
  of the open tag (latest first) inside one.
\<close>

fun scan_tags :: "string option \<Rightarrow> string \<Rightarrow> string list" where
  "scan_tags st [] = []"
| "scan_tags None (c # cs) =
     (if c = CHR ''<'' then scan_tags (Some []) cs else scan_tags None cs)"
| "scan_tags (Some acc) (c # cs) =
     (if c = CHR ''>'' then rev acc # scan_tags None cs else scan_tags (Some (c # acc)) cs)"

definition tags :: "string \<Rightarrow> string list" where
  "tags doc = scan_tags None doc"

text \<open>
  The \<^verbatim>\<open>src\<close> attribute of an \<^verbatim>\<open>img\<close> tag: the text between \<^verbatim>\<open>img src="\<close> and the
  next double quote.
\<close>

definition img_src :: "string \<Rightarrow> string option" where
  \<open>img_src t =
     (if prefix ''img src="'' t
      then Some (takeWhile (\<lambda>c. c \<noteq> CHR 0x22) (drop (length ''img src="'') t))
      else None)\<close>

text \<open>
  \<^verbatim>\<open>scan_pages\<close> groups a tag sequence into page blocks: a block opens at a tag
  \<^verbatim>\<open>div class="page"\<close>, closes at the next \<^verbatim>\<open>/div\<close>, and is represented by the list
  of the sources of the image elements met in between.
\<close>

definition page_tag :: string where
  \<open>page_tag = ''div class="page"''\<close>

fun scan_pages :: "string list option \<Rightarrow> string list \<Rightarrow> string list list" where
  "scan_pages st [] = []"
| "scan_pages None (t # ts) =
     (if t = page_tag then scan_pages (Some []) ts else scan_pages None ts)"
| "scan_pages (Some acc) (t # ts) =
     (if t = ''/div'' then rev acc # scan_pages None ts
      else case img_src t of
             Some s \<Rightarrow> scan_pages (Some (s # acc)) ts
           | None \<Rightarrow> scan_pages (Some acc) ts)"

definition page_images :: "string \<Rightarrow> string list list" where
  "page_images doc = scan_pages None (tags doc)"

subsection \<open>Reading the structure and the style sheet\<close>








text \<open>
  Splitting a text at every occurrence of a separator, as \<^verbatim>\<open>String.prototype.split\<close> does: the
  inverse reading of \<^verbatim>\<open>Array.prototype.join\<close>.
\<close>

fun split_at :: "char \<Rightarrow> string \<Rightarrow> string \<Rightarrow> string list" where
  "split_at sep acc [] = [rev acc]"
| "split_at sep acc (c # cs) =
     (if c = sep then rev acc # split_at sep [] cs else split_at sep (c # acc) cs)"

definition split_lines :: "string \<Rightarrow> string list" where
  "split_lines s = split_at CHR ''\<newline>'' [] s"






































text \<open>
  A MIME type or a base64 payload holds none of the three characters that delimit markup
  and attribute values.
\<close>

definition markup_free :: "string \<Rightarrow> bool" where
  "markup_free s = list_all (\<lambda>c. c \<noteq> CHR ''<'' \<and> c \<noteq> CHR ''>'' \<and> c \<noteq> CHR 0x22) s"

definition plain_asset :: "asset \<Rightarrow> bool" where
  "plain_asset img = (markup_free (type img) \<and> markup_free (base64 img))"

section \<open>Collaborators, component state and effects\<close>

text \<open>
  What the component receives from the libraries it calls. \<^verbatim>\<open>Platform.OS\<close> is compared
  with \<^verbatim>\<open>'android'\<close> (line 27) and \<^verbatim>\<open>'ios'\<close> (line 163); every other value behaves
  alike. A permission request answers with one of the three
  \<^verbatim>\<open>PermissionsAndroid.RESULTS\<close>. The recognizer's answer is tested with
  \<^verbatim>\<open>Array.isArray\<close> and \<^verbatim>\<open>typeof results === 'string'\<close> (lines 66-67), which gives the
  three shapes of \<^verbatim>\<open>ocr_result\<close>. The picker's answer is read through
  \<^verbatim>\<open>result.assets\<close> only, which is \<^verbatim>\<open>undefined\<close> (\<^verbatim>\<open>None\<close>) after a cancellation;
  the converter's through \<^verbatim>\<open>pdf.filePath\<close>.
\<close>

datatype os = Android | IOS | OtherOS

datatype permission = READ_EXTERNAL_STORAGE | WRITE_EXTERNAL_STORAGE

datatype permission_status = GRANTED | DENIED | NEVER_ASK_AGAIN

datatype ocr_result = Lines "string list" | Text string | OtherShape

record picker_result =
  assets :: "asset list option"

record pdf_options =
  html :: string
  fileName :: string
  directory :: string
  height :: nat
  width :: nat
  padding :: nat

record pdf_result =
  filePath :: "string option"

text \<open>
  Exceptions. A collaborator rejects with a value of its own, of which only a message
  is kept; \<^verbatim>\<open>ProcessingError\<close> is the \<^verbatim>\<open>new Error(...)\<close> that \<^verbatim>\<open>processImage\<close>
  throws at line 70.
\<close>

datatype exn = Rejected string | ProcessingError

text \<open>
  The five alerts of the component, by the line of their \<^verbatim>\<open>Alert.alert\<close> call: 78
  (permission needed), 99 (processing failed), 152 (no image selected), 172 (file saved,
  with the path interpolated) and 182 (export failed). Their Vietnamese texts are
  constants of the source and are not spelled out here.
\<close>

datatype notice =
    PermissionNeeded
  | ProcessingFailed
  | NoImageSelected
  | FileSaved string
  | ExportFailed

text \<open>
  Everything the component does to the outside, and every call of a state setter, is
  recorded as an event. \<^verbatim>\<open>console.error\<close> (lines 55, 69, 98 and 181) writes to the
  developer console only and is left out.
\<close>

datatype event =
    Call_request permission
  | Call_launchImageLibrary
  | Call_recognize string
  | Call_convert pdf_options
  | Call_setString string
  | Call_alert notice
  | Set_loading bool
  | Set_selectedImages "asset list"
  | Set_extractedTexts "string list"

text \<open>
  The behaviour of the collaborators during one action, one field per library entry point
  the component calls. Every call settles: it fulfils (\<^verbatim>\<open>Inr\<close>) or rejects
  (\<^verbatim>\<open>Inl\<close>). \<^verbatim>\<open>recognize_finish i\<close> is the time at which the recognition started for
  the \<^verbatim>\<open>i\<close>-th image of a batch settles; \<^verbatim>\<open>Date_now\<close> is the decimal rendering of
  \<^verbatim>\<open>Date.now()\<close>.
\<close>

record env =
  Platform_OS :: os
  PermissionsAndroid_request :: "permission \<Rightarrow> exn + permission_status"
  launchImageLibrary :: "exn + picker_result"
  TextRecognition_recognize :: "string \<Rightarrow> exn + ocr_result"
  recognize_finish :: "nat \<Rightarrow> nat"
  RNHTMLtoPDF_convert :: "pdf_options \<Rightarrow> exn + pdf_result"
  Clipboard_setString :: "string \<Rightarrow> exn + unit"
  Date_now :: string

text \<open>
  The three \<^verbatim>\<open>useState\<close> cells of the component (lines 21-23) and the events so far.
\<close>

record world =
  selectedImages :: "asset list"
  extractedTexts :: "string list"
  loading :: bool
  trace :: "event list"

definition initial_world :: world where
  "initial_world = \<lparr>selectedImages = [], extractedTexts = [], loading = False, trace = []\<rparr>"

text \<open>
  An \<^verbatim>\<open>async\<close> function is a state transformer that returns or throws. \<^verbatim>\<open>io_bind\<close>
  is sequencing (\<^verbatim>\<open>await\<close> included), \<^verbatim>\<open>io_catch\<close> is \<^verbatim>\<open>try { } catch { }\<close> and
  \<^verbatim>\<open>io_finally\<close> is \<^verbatim>\<open>try { } finally { }\<close>: the handler of a \<^verbatim>\<open>finally\<close> always
  runs, and the outcome of the protected block stands unless the handler throws.
\<close>

type_synonym 'a io = "world \<Rightarrow> (exn + 'a) \<times> world"

definition io_return :: "'a \<Rightarrow> 'a io" where
  "io_return x = (\<lambda>w. (Inr x, w))"

definition io_throw :: "exn \<Rightarrow> 'a io" where
  "io_throw e = (\<lambda>w. (Inl e, w))"

definition io_bind :: "'a io \<Rightarrow> ('a \<Rightarrow> 'b io) \<Rightarrow> 'b io" where
  "io_bind m f = (\<lambda>w. case m w of (Inl e, w') \<Rightarrow> (Inl e, w') | (Inr x, w') \<Rightarrow> f x w')"

definition io_catch :: "'a io \<Rightarrow> (exn \<Rightarrow> 'a io) \<Rightarrow> 'a io" where
  "io_catch m handler = (\<lambda>w. case m w of (Inl e, w') \<Rightarrow> handler e w' | (Inr x, w') \<Rightarrow> (Inr x, w'))"

definition io_finally :: "'a io \<Rightarrow> unit io \<Rightarrow> 'a io" where
  "io_finally m finalizer =
     (\<lambda>w. case m w of (r, w') \<Rightarrow>
        (case finalizer w' of (Inl e, w'') \<Rightarrow> (Inl e, w'') | (Inr u, w'') \<Rightarrow> (r, w'')))"

definition emit :: "event \<Rightarrow> world \<Rightarrow> world" where
  "emit ev w = w\<lparr>trace := trace w @ [ev]\<rparr>"

definition call :: "event \<Rightarrow> exn + 'a \<Rightarrow> 'a io" where
  "call ev outcome = (\<lambda>w. (outcome, emit ev w))"

definition alert :: "notice \<Rightarrow> unit io" where
  "alert n = (\<lambda>w. (Inr (), emit (Call_alert n) w))"

definition setLoading :: "bool \<Rightarrow> unit io" where
  "setLoading b = (\<lambda>w. (Inr (), emit (Set_loading b) (w\<lparr>loading := b\<rparr>)))"

definition setSelectedImages :: "asset list \<Rightarrow> unit io" where
  "setSelectedImages xs = (\<lambda>w. (Inr (), emit (Set_selectedImages xs) (w\<lparr>selectedImages := xs\<rparr>)))"

definition setExtractedTexts :: "string list \<Rightarrow> unit io" where
  "setExtractedTexts ts = (\<lambda>w. (Inr (), emit (Set_extractedTexts ts) (w\<lparr>extractedTexts := ts\<rparr>)))"

section \<open>The permission gate\<close>

text \<open>
  \<^verbatim>\<open>requestStoragePermission\<close> (lines 25-58). On Android the two requests are awaited one
  after the other, the second whatever the first answered; a request that rejects leaves
  the \<^verbatim>\<open>try\<close> block at once.
\<close>

definition requestStoragePermission :: "env \<Rightarrow> bool io" where
  "requestStoragePermission e =
     io_catch
       (if Platform_OS e = Android then
          io_bind (call (Call_request READ_EXTERNAL_STORAGE)
                     (PermissionsAndroid_request e READ_EXTERNAL_STORAGE)) (\<lambda>readGranted.
          io_bind (call (Call_request WRITE_EXTERNAL_STORAGE)
                     (PermissionsAndroid_request e WRITE_EXTERNAL_STORAGE)) (\<lambda>writeGranted.
          io_return (readGranted = GRANTED \<and> writeGranted = GRANTED)))
        else io_return True)
       (\<lambda>err. io_return False)"

section \<open>Text extraction\<close>

text \<open>
  \<^verbatim>\<open>Array.prototype.join\<close> on an array of strings: the elements in order, the separator
  between each two neighbours.
\<close>

fun join :: "string \<Rightarrow> string list \<Rightarrow> string" where
  "join sep [] = []"
| "join sep [x] = x"
| "join sep (x # xs) = x @ sep @ join sep xs"

text \<open>
  \<^verbatim>\<open>processImage\<close> (lines 60-72). The conditional expression of lines 66-67 is
  \<^verbatim>\<open>normalize\<close>; whatever the recognizer rejects with is replaced by the one
  \<^verbatim>\<open>Error\<close> of line 70.
\<close>

definition normalize :: "ocr_result \<Rightarrow> string" where
  "normalize results =
     (case results of Lines ls \<Rightarrow> join ''\<newline>'' ls | Text s \<Rightarrow> s | OtherShape \<Rightarrow> [])"

definition processImage :: "env \<Rightarrow> string \<Rightarrow> string io" where
  "processImage e imagePath =
     io_catch
       (io_bind (call (Call_recognize imagePath) (TextRecognition_recognize e imagePath)) (\<lambda>results.
        io_return (normalize results)))
       (\<lambda>error. io_throw ProcessingError)"

text \<open>
  \<^verbatim>\<open>Promise.all\<close>. The promises are created first, in the order of the array: each
  \<^verbatim>\<open>processImage\<close> runs up to its call of the recognizer (\<^verbatim>\<open>start_all\<close>). They then
  settle in the order of their finishing times (ties in the order of the array); a
  fulfilled promise stores its value in the slot of its index, a rejected one rejects
  the whole at once (\<^verbatim>\<open>settle\<close>). When all have settled without a rejection, the result
  is the array of the slots in index order.
\<close>

fun start_all :: "'a io list \<Rightarrow> world \<Rightarrow> (exn + 'a) list \<times> world" where
  "start_all [] w = ([], w)"
| "start_all (m # ms) w =
     (case m w of (r, w') \<Rightarrow> (case start_all ms w' of (rs, w'') \<Rightarrow> (r # rs, w'')))"

fun settle :: "(exn + 'a) list \<Rightarrow> nat list \<Rightarrow> (nat \<rightharpoonup> 'a) \<Rightarrow> exn + (nat \<rightharpoonup> 'a)" where
  "settle outs [] vals = Inr vals"
| "settle outs (i # order) vals =
     (case outs ! i of
        Inl e \<Rightarrow> Inl e
      | Inr v \<Rightarrow> settle outs order (vals(i \<mapsto> v)))"

definition settle_order :: "(nat \<Rightarrow> nat) \<Rightarrow> nat \<Rightarrow> nat list" where
  "settle_order finish n = sort_key finish [0..<n]"

definition settle_all :: "(nat \<Rightarrow> nat) \<Rightarrow> (exn + 'a) list \<Rightarrow> exn + 'a list" where
  "settle_all finish outs =
     (case settle outs (settle_order finish (length outs)) Map.empty of
        Inl e \<Rightarrow> Inl e
      | Inr vals \<Rightarrow> Inr (List.map_filter vals [0..<length outs]))"

definition promise_all :: "(nat \<Rightarrow> nat) \<Rightarrow> 'a io list \<Rightarrow> 'a list io" where
  "promise_all finish ms =
     (\<lambda>w. case start_all ms w of (outs, w') \<Rightarrow> (settle_all finish outs, w'))"

text \<open>
  The batch of lines 92-94:
  \<^verbatim>\<open>Promise.all(result.assets.map(asset => processImage(asset.uri)))\<close>.
\<close>

definition extract_all :: "env \<Rightarrow> asset list \<Rightarrow> string list io" where
  "extract_all e as =
     promise_all (recognize_finish e) (map (\<lambda>asset. processImage e (uri asset)) as)"

section \<open>The two actions and the clear button\<close>

text \<open>
  \<^verbatim>\<open>pickImages\<close> (lines 74-103). The early \<^verbatim>\<open>return\<close> of line 79 is the first branch
  of the conditional; \<^verbatim>\<open>if (result.assets)\<close> holds for every array, the empty one
  included.
\<close>

definition pickImages :: "env \<Rightarrow> unit io" where
  "pickImages e =
     io_finally
       (io_catch
          (io_bind (requestStoragePermission e) (\<lambda>hasPermission.
             if \<not> hasPermission then alert PermissionNeeded
             else
               io_bind (setLoading True) (\<lambda>_.
               io_bind (call Call_launchImageLibrary (launchImageLibrary e)) (\<lambda>result.
                 case assets result of
                   Some as \<Rightarrow>
                     io_bind (setSelectedImages as) (\<lambda>_.
                     io_bind (extract_all e as) (\<lambda>texts.
                     setExtractedTexts texts))
                 | None \<Rightarrow> io_return ()))))
          (\<lambda>error. alert ProcessingFailed))
       (setLoading False)"

text \<open>
  \<^verbatim>\<open>exportToPDF\<close> (lines 149-186). \<^verbatim>\<open>if (pdf.filePath)\<close> holds for a path that is
  present and not the empty string.
\<close>

definition export_options :: "env \<Rightarrow> asset list \<Rightarrow> pdf_options" where
  "export_options e images =
     \<lparr>html = generateHTMLContent images,
      fileName = ''images_'' @ Date_now e,
      directory = (if Platform_OS e = IOS then ''Documents'' else ''Download''),
      height = 842,
      width = 595,
      padding = 0\<rparr>"

definition exportToPDF :: "env \<Rightarrow> unit io" where
  "exportToPDF e =
     io_finally
       (io_catch
          (\<lambda>w.
             if selectedImages w = [] then alert NoImageSelected w
             else
               io_bind (setLoading True) (\<lambda>_.
               io_bind (call (Call_convert (export_options e (selectedImages w)))
                          (RNHTMLtoPDF_convert e (export_options e (selectedImages w)))) (\<lambda>pdf.
                 case filePath pdf of
                   Some path \<Rightarrow>
                     if path \<noteq> [] then
                       io_bind (alert (FileSaved path)) (\<lambda>_.
                       call (Call_setString path) (Clipboard_setString e path))
                     else io_return ()
                 | None \<Rightarrow> io_return ())) w)
          (\<lambda>error. alert ExportFailed))
       (setLoading False)"

text \<open>\<^verbatim>\<open>clearResults\<close> (lines 188-191).\<close>

definition clearResults :: "unit io" where
  "clearResults = io_bind (setSelectedImages []) (\<lambda>_. setExtractedTexts [])"

text \<open>
  The buttons (lines 197-227). A \<^verbatim>\<open>TouchableOpacity\<close> whose \<^verbatim>\<open>disabled\<close> property is true
  does not call its \<^verbatim>\<open>onPress\<close> handler; the clear button is rendered only while
  \<^verbatim>\<open>extractedTexts.length > 0\<close>.
\<close>

definition press_pick :: "env \<Rightarrow> unit io" where
  "press_pick e = (\<lambda>w. if loading w then (Inr (), w) else pickImages e w)"

definition press_export :: "env \<Rightarrow> unit io" where
  "press_export e =
     (\<lambda>w. if loading w \<or> selectedImages w = [] then (Inr (), w) else exportToPDF e w)"

definition press_clear :: "unit io" where
  "press_clear = (\<lambda>w. if extractedTexts w \<noteq> [] then clearResults w else (Inr (), w))"

section \<open>Vocabulary of the properties\<close>

text \<open>
  The text of one page block before and after its data URI, the tag sequences a reader
  finds in the fixed opening text and in one page block, and the events an action adds
  to the trace.
\<close>

definition block_prefix :: string where
  \<open>block_prefix =
     ''\<newline>'' @
     ''        <div class="page">\<newline>'' @
     ''          <img src="''\<close>

definition block_suffix :: string where
  \<open>block_suffix =
     ''" />\<newline>'' @
     ''        </div>\<newline>'' @
     ''      ''\<close>

definition head_tags :: "string list" where
  "head_tags = [''!DOCTYPE html'', ''html'', ''head'', ''style'', ''/style'', ''/head'', ''body'']"

definition tail_tags :: "string list" where
  "tail_tags = [''/body'', ''/html'']"

definition img_tag :: "asset \<Rightarrow> string" where
  \<open>img_tag img = ''img src="'' @ data_uri img @ ''" /''\<close>

definition page_tags :: "asset \<Rightarrow> string list" where
  "page_tags img = [page_tag, img_tag img, ''/div'']"

definition new_events :: "world \<Rightarrow> world \<Rightarrow> event list" where
  "new_events w w' = drop (length (trace w)) (trace w')"

definition permission_calls :: "env \<Rightarrow> event list" where
  "permission_calls e =
     (if Platform_OS e = Android then
        Call_request READ_EXTERNAL_STORAGE #
        (case PermissionsAndroid_request e READ_EXTERNAL_STORAGE of
           Inl err \<Rightarrow> []
         | Inr r \<Rightarrow> [Call_request WRITE_EXTERNAL_STORAGE])
      else [])"

definition both_granted :: "env \<Rightarrow> bool" where
  "both_granted e =
     (PermissionsAndroid_request e READ_EXTERNAL_STORAGE = Inr GRANTED \<and>
      PermissionsAndroid_request e WRITE_EXTERNAL_STORAGE = Inr GRANTED)"

definition recognized :: "env \<Rightarrow> asset \<Rightarrow> exn + string" where
  "recognized e asset =
     (case TextRecognition_recognize e (uri asset) of
        Inl err \<Rightarrow> Inl ProcessingError
      | Inr r \<Rightarrow> Inr (normalize r))"



text \<open>
  The events of one export and the outcome of one pick, as functions of the collaborators'
  behaviour: whether the pick gets past the permission gate, the assets it stores, whether
  the extraction batch fails and the texts it yields otherwise.
\<close>

definition export_events :: "env \<Rightarrow> world \<Rightarrow> event list" where
  "export_events e w =
     (if selectedImages w = [] then [Call_alert NoImageSelected]
      else
        [Set_loading True, Call_convert (export_options e (selectedImages w))] @
        (case RNHTMLtoPDF_convert e (export_options e (selectedImages w)) of
           Inl err \<Rightarrow> [Call_alert ExportFailed]
         | Inr pdf \<Rightarrow>
             (case filePath pdf of
                None \<Rightarrow> []
              | Some path \<Rightarrow>
                  if path = [] then []
                  else [Call_alert (FileSaved path), Call_setString path] @
                       (case Clipboard_setString e path of
                          Inl err \<Rightarrow> [Call_alert ExportFailed]
                        | Inr u \<Rightarrow> [])))) @
     [Set_loading False]"

definition pick_advances :: "env \<Rightarrow> bool" where
  "pick_advances e = (if Platform_OS e = Android then both_granted e else True)"

definition picked :: "env \<Rightarrow> asset list option" where
  "picked e =
     (if pick_advances e then
        (case launchImageLibrary e of Inl err \<Rightarrow> None | Inr result \<Rightarrow> assets result)
      else None)"

definition batch_fails :: "env \<Rightarrow> asset list \<Rightarrow> bool" where
  "batch_fails e as = (\<exists>a\<in>set as. isl (TextRecognition_recognize e (uri a)))"

definition batch_texts :: "env \<Rightarrow> asset list \<Rightarrow> string list" where
  "batch_texts e as = map (\<lambda>a. normalize (projr (TextRecognition_recognize e (uri a)))) as"

definition is_setter :: "event \<Rightarrow> bool" where
  "is_setter ev =
     (case ev of
        Set_loading b \<Rightarrow> True
      | Set_selectedImages xs \<Rightarrow> True
      | Set_extractedTexts ts \<Rightarrow> True
      | _ \<Rightarrow> False)"

text \<open>
  The alignment of the two sequences that the specification asks of every state.
\<close>

definition aligned :: "world \<Rightarrow> bool" where
  "aligned w =
     (extractedTexts w = [] \<or> length (extractedTexts w) = length (selectedImages w))"

text \<open>Two assets for the concrete instances below.\<close>

definition jpeg_asset :: asset where
  "jpeg_asset = \<lparr>uri = ''file:///tmp/a.jpg'', type = ''image/jpeg'', base64 = ''QUJD''\<rparr>"

definition png_asset :: asset where
  "png_asset = \<lparr>uri = ''file:///tmp/b.png'', type = ''image/png'', base64 = ''REVG''\<rparr>"

text \<open>
  Collaborators for the concrete instances: on iOS the picker returns the two assets and
  the recognizer answers two lines for the first and one string for the second; in the
  second environment the picker returns one asset and the recognizer rejects.
\<close>

definition first_pick_env :: env where
  "first_pick_env =
     \<lparr>Platform_OS = IOS,
      PermissionsAndroid_request = (\<lambda>p. Inr GRANTED),
      launchImageLibrary = Inr \<lparr>assets = Some [jpeg_asset, png_asset]\<rparr>,
      TextRecognition_recognize =
        (\<lambda>u. if u = ''file:///tmp/a.jpg'' then Inr (Lines [''A'', ''B'']) else Inr (Text ''C'')),
      recognize_finish = (\<lambda>i. 0),
      RNHTMLtoPDF_convert = (\<lambda>opts. Inr \<lparr>filePath = Some ''/Documents/images_1.pdf''\<rparr>),
      Clipboard_setString = (\<lambda>s. Inr ()),
      Date_now = ''1''\<rparr>"

definition failing_pick_env :: env where
  "failing_pick_env =
     first_pick_env
       \<lparr>launchImageLibrary := Inr \<lparr>assets = Some [png_asset]\<rparr>,
        TextRecognition_recognize := (\<lambda>u. Inl (Rejected ''corrupt image''))\<rparr>"

definition busy_world :: world where
  "busy_world =
     \<lparr>selectedImages = [jpeg_asset], extractedTexts = [''A''], loading = True, trace = []\<rparr>"

section \<open>Properties of the composer\<close>

lemma foldl_append_blocks:
  "foldl (\<lambda>acc x. acc @ f x) init xs = init @ concat (map f xs)"
  by (induction xs arbitrary: init) simp_all

lemma generateHTMLContent_blocks:
  "generateHTMLContent images = html_head @ concat (map page_block images) @ html_tail"
  by (simp add: generateHTMLContent_def foldl_append_blocks)

lemma page_block_parts: "page_block img = block_prefix @ data_uri img @ block_suffix"
  by (simp add: page_block_def block_prefix_def block_suffix_def data_uri_def)

subsection \<open>The tags of a composed document\<close>

lemma scan_tags_outside:
  "CHR ''<'' \<notin> set a \<Longrightarrow> scan_tags None (a @ b) = scan_tags None b"
  by (induction a) auto

lemma scan_tags_inside:
  "CHR ''>'' \<notin> set a \<Longrightarrow>
   scan_tags (Some acc) (a @ CHR ''>'' # b) = (rev acc @ a) # scan_tags None b"
  by (induction a arbitrary: acc) auto

text \<open>The opening text is read line by line: seven lines hold a tag, the others none.\<close>

lemma tags_head: "scan_tags None (html_head @ rest) = head_tags @ scan_tags None rest"
proof -
  have t1: "scan_tags None (''      <!DOCTYPE html>\<newline>'' @ r) =
              ''!DOCTYPE html'' # scan_tags None r" for r
    by simp
  have t2: "scan_tags None (''      <html>\<newline>'' @ r) = ''html'' # scan_tags None r" for r
    by simp
  have t3: "scan_tags None (''        <head>\<newline>'' @ r) = ''head'' # scan_tags None r" for r
    by simp
  have t4: "scan_tags None (''          <style>\<newline>'' @ r) = ''style'' # scan_tags None r" for r
    by simp
  have t5: "scan_tags None (''          </style>\<newline>'' @ r) = ''/style'' # scan_tags None r" for r
    by simp
  have t6: "scan_tags None (''        </head>\<newline>'' @ r) = ''/head'' # scan_tags None r" for r
    by simp
  have t7: "scan_tags None (''        <body>\<newline>'' @ r) = ''body'' # scan_tags None r" for r
    by simp
  have "scan_tags None (html_head @ rest) =
          ''!DOCTYPE html'' # ''html'' # ''head'' # ''style'' # ''/style'' # ''/head'' # ''body'' #
          scan_tags None rest"
    unfolding html_head_def
    by (simp only: append_assoc t1 t2 t3 t4 t5 t6 t7 scan_tags_outside list.set insert_iff
          empty_iff char.inject simp_thms de_Morgan_disj)
  then show ?thesis by (simp add: head_tags_def)
qed

lemma tags_tail: "scan_tags None html_tail = tail_tags"
  unfolding html_tail_def tail_tags_def by simp

lemma markup_free_set:
  "markup_free s \<Longrightarrow> CHR ''<'' \<notin> set s \<and> CHR ''>'' \<notin> set s \<and> CHR 0x22 \<notin> set s"
  by (auto simp: markup_free_def list_all_iff)

lemma tags_page_block:
  assumes "plain_asset img"
  shows "scan_tags None (page_block img @ rest) = page_tags img @ scan_tags None rest"
proof -
  have t: "CHR ''>'' \<notin> set (type img)" and b: "CHR ''>'' \<notin> set (base64 img)"
    using assms by (auto simp: plain_asset_def dest: markup_free_set)
  have inner: "scan_tags (Some acc)
                 (type img @ '';base64,'' @ base64 img @
                    CHR 0x22 # CHR '' '' # CHR ''/'' # CHR ''>'' # r) =
               (rev acc @ type img @ '';base64,'' @ base64 img @ [CHR 0x22, CHR '' '', CHR ''/'']) #
               scan_tags None r" for acc r
  proof -
    have "CHR ''>'' \<notin> set (type img @ '';base64,'' @ base64 img @ [CHR 0x22, CHR '' '', CHR ''/''])"
      using t b by simp
    from scan_tags_inside[OF this, of acc r] show ?thesis by simp
  qed
  show ?thesis
    unfolding page_block_def page_tag_def img_tag_def data_uri_def page_tags_def
    by (simp add: inner[simplified])
qed

lemma tags_blocks:
  "list_all plain_asset images \<Longrightarrow>
   scan_tags None (concat (map page_block images) @ rest) =
     concat (map page_tags images) @ scan_tags None rest"
  by (induction images) (simp_all add: tags_page_block)

lemma tags_generateHTMLContent:
  "list_all plain_asset images \<Longrightarrow>
   tags (generateHTMLContent images) = head_tags @ concat (map page_tags images) @ tail_tags"
  by (simp add: tags_def generateHTMLContent_blocks tags_head tags_blocks tags_tail)

subsection \<open>The page blocks of a composed document\<close>

lemma takeWhile_until:
  "x \<notin> set a \<Longrightarrow> takeWhile (\<lambda>c. c \<noteq> x) (a @ x # r) = a"
  by (induction a) auto

lemma img_src_img_tag:
  assumes "plain_asset img"
  shows "img_src (img_tag img) = Some (data_uri img)"
proof -
  have "CHR 0x22 \<notin> set (data_uri img)"
    using assms by (auto simp: plain_asset_def data_uri_def dest: markup_free_set)
  then have "takeWhile (\<lambda>c. c \<noteq> CHR 0x22) (data_uri img @ CHR 0x22 # r) = data_uri img" for r
    by (rule takeWhile_until)
  then show ?thesis
    by (simp add: img_src_def img_tag_def)
qed

lemma img_tag_not_close: "img_tag img \<noteq> ''/div''"
  by (simp add: img_tag_def)

lemma pages_head: "scan_pages None (head_tags @ ts) = scan_pages None ts"
  by (simp add: head_tags_def page_tag_def)

lemma pages_page_tags:
  "plain_asset img \<Longrightarrow>
   scan_pages None (page_tags img @ ts) = [data_uri img] # scan_pages None ts"
  by (simp add: page_tags_def img_src_img_tag img_tag_not_close)

lemma pages_blocks:
  "list_all plain_asset images \<Longrightarrow>
   scan_pages None (concat (map page_tags images) @ ts) =
     map (\<lambda>img. [data_uri img]) images @ scan_pages None ts"
  by (induction images) (simp_all add: pages_page_tags)

lemma pages_tail: "scan_pages None tail_tags = []"
  by (simp add: page_tag_def tail_tags_def)

lemma page_images_generateHTMLContent:
  assumes "list_all plain_asset images"
  shows "page_images (generateHTMLContent images) = map (\<lambda>img. [data_uri img]) images"
proof -
  have "page_images (generateHTMLContent images) =
          scan_pages None (head_tags @ concat (map page_tags images) @ tail_tags)"
    using assms by (simp only: page_images_def tags_generateHTMLContent)
  also have "\<dots> = map (\<lambda>img. [data_uri img]) images @ scan_pages None tail_tags"
    using assms by (simp only: pages_head pages_blocks)
  finally show ?thesis by (simp only: pages_tail append_Nil2)
qed

lemma plain_sample_assets: "list_all plain_asset [jpeg_asset, png_asset]"
  by (simp add: plain_asset_def markup_free_def jpeg_asset_def png_asset_def)

text \<open>
  Claim C2. For every list of images (the non-empty ones in particular) the composed
  document is the opening text, then one page block per image in the order of the list,
  then the closing text, and the block of an image is a fixed text around the data URI
  \<^verbatim>\<open>data:<type>;base64,<base64>\<close> of that image. When no MIME type and no payload
  holds a markup delimiter, a reader of the markup finds exactly these page blocks: as
  many as images, in the same order, each with a single image element whose source is
  the data URI of its image.
\<close>

theorem composed_document_pages:
  "generateHTMLContent images =
     html_head @ concat (map (\<lambda>img. block_prefix @ data_uri img @ block_suffix) images) @ html_tail
   \<and> (list_all plain_asset images \<longrightarrow>
        page_images (generateHTMLContent images) = map (\<lambda>img. [data_uri img]) images)"
proof -
  have "map page_block images = map (\<lambda>img. block_prefix @ data_uri img @ block_suffix) images"
    by (simp add: page_block_parts)
  then have "generateHTMLContent images =
          html_head @ concat (map (\<lambda>img. block_prefix @ data_uri img @ block_suffix) images) @
          html_tail"
    by (simp only: generateHTMLContent_blocks)
  then show ?thesis
    using page_images_generateHTMLContent by blast
qed

theorem composed_document_pages_witness:
  "list_all plain_asset [jpeg_asset, png_asset]
   \<and> page_images (generateHTMLContent [jpeg_asset, png_asset]) =
       [[''data:image/jpeg;base64,QUJD''], [''data:image/png;base64,REVG'']]"
proof -
  have plain: "list_all plain_asset [jpeg_asset, png_asset]"
    by (rule plain_sample_assets)
  have "page_images (generateHTMLContent [jpeg_asset, png_asset]) =
          map (\<lambda>img. [data_uri img]) [jpeg_asset, png_asset]"
    using composed_document_pages[of "[jpeg_asset, png_asset]"] plain by blast
  also have "\<dots> = [[''data:image/jpeg;base64,QUJD''], [''data:image/png;base64,REVG'']]"
    by (simp add: data_uri_def jpeg_asset_def png_asset_def)
  finally show ?thesis
    using plain by blast
qed

section \<open>Properties of the page breaks\<close>













subsection \<open>Style sheets of a composed document\<close>








subsection \<open>Elements and cascade\<close>















section \<open>Properties of the permission gate\<close>

lemmas io_defs = io_return_def io_throw_def io_bind_def io_catch_def io_finally_def
  call_def alert_def setLoading_def setSelectedImages_def setExtractedTexts_def emit_def

lemma requestStoragePermission_run:
  "requestStoragePermission e w =
     (Inr (if Platform_OS e = Android then both_granted e else True),
      w\<lparr>trace := trace w @ permission_calls e\<rparr>)"
  by (auto simp: requestStoragePermission_def io_defs permission_calls_def both_granted_def
           split: sum.splits)

text \<open>
  Claim C9. The permission gate returns a boolean and never throws. Off Android it
  returns true and calls nothing. On Android it requests the read permission and then
  the write permission (the second unless the first request rejected), and returns true
  exactly when both requests answered \<^verbatim>\<open>GRANTED\<close>: a denial, a dismissal or a rejected
  request gives false. The component state is left as it was.
\<close>

theorem permission_gate_total:
  "fst (requestStoragePermission e w) =
     Inr (if Platform_OS e = Android
          then PermissionsAndroid_request e READ_EXTERNAL_STORAGE = Inr GRANTED \<and>
               PermissionsAndroid_request e WRITE_EXTERNAL_STORAGE = Inr GRANTED
          else True)
   \<and> new_events w (snd (requestStoragePermission e w)) =
       (if Platform_OS e = Android then
          Call_request READ_EXTERNAL_STORAGE #
          (if isl (PermissionsAndroid_request e READ_EXTERNAL_STORAGE) then []
           else [Call_request WRITE_EXTERNAL_STORAGE])
        else [])
   \<and> selectedImages (snd (requestStoragePermission e w)) = selectedImages w
   \<and> extractedTexts (snd (requestStoragePermission e w)) = extractedTexts w
   \<and> loading (snd (requestStoragePermission e w)) = loading w"
  by (simp add: requestStoragePermission_run new_events_def both_granted_def
        permission_calls_def split: sum.splits)

section \<open>Properties of the text extraction\<close>

lemma processImage_run:
  "processImage e p w =
     (case TextRecognition_recognize e p of Inl err \<Rightarrow> Inl ProcessingError | Inr r \<Rightarrow> Inr (normalize r),
      w\<lparr>trace := trace w @ [Call_recognize p]\<rparr>)"
  by (simp add: processImage_def io_defs split: sum.splits)

lemma start_all_processImage:
  "start_all (map (\<lambda>asset. processImage e (uri asset)) as) w =
     (map (\<lambda>asset. case TextRecognition_recognize e (uri asset) of
                      Inl err \<Rightarrow> Inl ProcessingError | Inr r \<Rightarrow> Inr (normalize r)) as,
      w\<lparr>trace := trace w @ map (\<lambda>asset. Call_recognize (uri asset)) as\<rparr>)"
  by (induction as arbitrary: w) (simp_all add: processImage_run)

lemma settle_fulfilled:
  "\<forall>i\<in>set order. i < length vs \<Longrightarrow>
   settle (map Inr vs) order vals =
     Inr (\<lambda>k. if k \<in> set order then Some (vs ! k) else vals k)"
  by (induction order arbitrary: vals) (auto simp: fun_eq_iff)

lemma settle_rejected:
  "\<forall>j\<in>set pre. \<exists>v. outs ! j = Inr v \<Longrightarrow> outs ! i = Inl err \<Longrightarrow>
   settle outs (pre @ i # post) vals = Inl err"
  by (induction pre arbitrary: vals) auto

lemma set_settle_order: "set (settle_order finish n) = {0..<n}"
  by (simp add: settle_order_def)

lemma map_filter_all:
  "List.map_filter (\<lambda>k. if k < length vs then Some (vs ! k) else None) [0..<length vs] = vs"
proof -
  have "List.map_filter (\<lambda>k. if k < length vs then Some (vs ! k) else None) [0..<length vs]
        = map (\<lambda>k. vs ! k) [0..<length vs]"
    by (simp add: List.map_filter_def cong: map_cong filter_cong)
  then show ?thesis by (simp add: map_nth)
qed

lemma settle_all_fulfilled: "settle_all finish (map Inr vs) = Inr vs"
proof -
  have "settle (map Inr vs) (settle_order finish (length vs)) Map.empty =
          Inr (\<lambda>k. if k \<in> {0..<length vs} then Some (vs ! k) else None)"
    using settle_fulfilled[of "settle_order finish (length vs)" vs Map.empty]
    by (simp add: set_settle_order)
  then show ?thesis
    by (simp add: settle_all_def map_filter_all)
qed

lemma before_in_settle_order:
  assumes ord: "settle_order finish n = pre @ i # post" and j: "j \<in> set pre"
  shows "finish j < finish i \<or> (finish j = finish i \<and> j < i)"
proof -
  have "sorted (map finish (pre @ i # post))"
    using ord[symmetric] by (simp add: settle_order_def)
  then have le: "finish j \<le> finish i"
    using j by (auto simp: sorted_append)
  have "filter (\<lambda>y. finish y = finish i) (pre @ i # post) =
          filter (\<lambda>y. finish y = finish i) [0..<n]"
    using ord[symmetric] by (simp add: settle_order_def sort_key_stable)
  moreover have "sorted_wrt (<) (filter (\<lambda>y. finish y = finish i) [0..<n])"
    by (rule sorted_wrt_filter) simp
  ultimately have "sorted_wrt (<) (filter (\<lambda>y. finish y = finish i) pre @
                     i # filter (\<lambda>y. finish y = finish i) post)"
    by simp
  then have "finish j = finish i \<Longrightarrow> j < i"
    using j by (auto simp: sorted_wrt_append)
  with le show ?thesis by linarith
qed

lemma settle_all_first_rejection:
  assumes i: "i < length outs" and rej: "outs ! i = Inl err"
    and first: "\<forall>j<length outs. isl (outs ! j) \<longrightarrow>
                  finish i < finish j \<or> (finish i = finish j \<and> i \<le> j)"
  shows "settle_all finish outs = Inl err"
proof -
  have "i \<in> set (settle_order finish (length outs))"
    using i by (simp add: set_settle_order)
  then obtain pre post where ord: "settle_order finish (length outs) = pre @ i # post"
    by (auto dest: split_list)
  have "\<exists>v. outs ! j = Inr v" if j: "j \<in> set pre" for j
  proof (cases "outs ! j")
    case (Inl a)
    have "j \<in> set (settle_order finish (length outs))"
      using ord j by simp
    then have "j < length outs" by (simp add: set_settle_order)
    with first Inl have "finish i < finish j \<or> (finish i = finish j \<and> i \<le> j)"
      by simp
    with before_in_settle_order[OF ord j] show ?thesis by linarith
  next
    case (Inr b)
    then show ?thesis by simp
  qed
  then have "settle outs (pre @ i # post) Map.empty = Inl err"
    using rej by (intro settle_rejected) auto
  then show ?thesis
    by (simp add: settle_all_def ord)
qed

lemma settle_rejects:
  "\<exists>i\<in>set order. isl (outs ! i) \<Longrightarrow>
   \<exists>i\<in>set order. \<exists>err. outs ! i = Inl err \<and> settle outs order vals = Inl err"
proof (induction order arbitrary: vals)
  case Nil
  then show ?case by simp
next
  case (Cons k order)
  show ?case
  proof (cases "outs ! k")
    case (Inl err)
    then show ?thesis by auto
  next
    case (Inr v)
    with Cons.prems have "\<exists>i\<in>set order. isl (outs ! i)" by auto
    from Cons.IH[OF this] obtain i err where
      "i \<in> set order" "outs ! i = Inl err" "settle outs order (vals(k \<mapsto> v)) = Inl err"
      by blast
    with Inr show ?thesis by auto
  qed
qed

lemma settle_all_rejects:
  assumes "\<exists>i<length outs. isl (outs ! i)"
  shows "\<exists>i<length outs. \<exists>err. outs ! i = Inl err \<and> settle_all finish outs = Inl err"
proof -
  have "\<exists>i\<in>set (settle_order finish (length outs)). isl (outs ! i)"
    using assms by (auto simp: set_settle_order)
  from settle_rejects[OF this, of Map.empty]
  show ?thesis by (auto simp: settle_all_def set_settle_order)
qed

lemma extract_all_run:
  "extract_all e as w =
     (if \<exists>a\<in>set as. isl (TextRecognition_recognize e (uri a)) then Inl ProcessingError
      else Inr (map (\<lambda>a. normalize (projr (TextRecognition_recognize e (uri a)))) as),
      w\<lparr>trace := trace w @ map (\<lambda>a. Call_recognize (uri a)) as\<rparr>)"
proof -
  let ?outs = "map (recognized e) as"
  have start: "start_all (map (\<lambda>asset. processImage e (uri asset)) as) w =
                 (?outs, w\<lparr>trace := trace w @ map (\<lambda>a. Call_recognize (uri a)) as\<rparr>)"
    by (simp add: start_all_processImage recognized_def)
  have res: "settle_all (recognize_finish e) ?outs =
               (if \<exists>a\<in>set as. isl (TextRecognition_recognize e (uri a)) then Inl ProcessingError
                else Inr (map (\<lambda>a. normalize (projr (TextRecognition_recognize e (uri a)))) as))"
  proof (cases "\<exists>a\<in>set as. isl (TextRecognition_recognize e (uri a))")
    case True
    then obtain i where "i < length as" "isl (TextRecognition_recognize e (uri (as ! i)))"
      by (auto simp: in_set_conv_nth)
    then have "\<exists>i<length ?outs. isl (?outs ! i)"
      by (auto simp: recognized_def split: sum.splits intro!: exI[of _ i])
    from settle_all_rejects[OF this, of "recognize_finish e"]
    obtain i err where "i < length as" "?outs ! i = Inl err"
      "settle_all (recognize_finish e) ?outs = Inl err" by auto
    moreover from this have "err = ProcessingError"
      by (auto simp: recognized_def split: sum.splits)
    ultimately show ?thesis using True by simp
  next
    case False
    then have "?outs = map Inr (map (\<lambda>a. normalize (projr (TextRecognition_recognize e (uri a)))) as)"
      by (auto simp: recognized_def split: sum.splits)
    then show ?thesis using False by (simp only: settle_all_fulfilled if_False)
  qed
  show ?thesis
    by (simp only: extract_all_def promise_all_def start res prod.case)
qed

subsection \<open>Normalisation\<close>

lemma split_at_last:
  "sep \<notin> set a \<Longrightarrow> split_at sep acc a = [rev acc @ a]"
  by (induction a arbitrary: acc) auto

lemma split_at_sep:
  "sep \<notin> set a \<Longrightarrow> split_at sep acc (a @ sep # r) = (rev acc @ a) # split_at sep [] r"
  by (induction a arbitrary: acc) auto

lemma split_lines_join:
  "ls \<noteq> [] \<Longrightarrow> list_all (\<lambda>l. CHR ''\<newline>'' \<notin> set l) ls \<Longrightarrow>
   split_lines (join ''\<newline>'' ls) = ls"
proof (induction "''\<newline>''" ls rule: join.induct)
  case 1
  then show ?case by simp
next
  case (2 x)
  then show ?case by (simp add: split_lines_def split_at_last)
next
  case (3 x y ys)
  then show ?case
    using split_at_sep[of "CHR ''\<newline>''" x "[]" "join ''\<newline>'' (y # ys)"]
    by (simp add: split_lines_def)
qed

text \<open>
  Claim C5. Whatever the recognizer answers, \<^verbatim>\<open>processImage\<close> calls it once and
  normalises the answer: an array of lines becomes the lines joined by one newline each,
  in their order (for a non-empty array of lines that hold no newline themselves,
  splitting the text at its newlines gives the array back); a string is returned as it
  is; any other shape gives the empty string. The three results of the scenario are
  \<^verbatim>\<open>"A\nB"\<close>, \<^verbatim>\<open>"C"\<close> and \<^verbatim>\<open>""\<close>. When the recognizer rejects, \<^verbatim>\<open>processImage\<close>
  throws its processing error and returns no text.
\<close>

theorem processImage_normalizes:
  "fst (processImage e p w) =
     (case TextRecognition_recognize e p of
        Inl err \<Rightarrow> Inl ProcessingError
      | Inr (Lines ls) \<Rightarrow> Inr (join ''\<newline>'' ls)
      | Inr (Text s) \<Rightarrow> Inr s
      | Inr OtherShape \<Rightarrow> Inr [])
   \<and> new_events w (snd (processImage e p w)) = [Call_recognize p]
   \<and> normalize (Lines [''A'', ''B'']) = ''A\<newline>B''
   \<and> normalize (Text ''C'') = ''C''
   \<and> normalize (Lines []) = []
   \<and> (ls \<noteq> [] \<and> list_all (\<lambda>l. CHR ''\<newline>'' \<notin> set l) ls \<longrightarrow>
        split_lines (normalize (Lines ls)) = ls)"
  by (simp add: processImage_run new_events_def normalize_def split_lines_join
        split: sum.splits ocr_result.splits)

theorem processImage_normalizes_witness:
  "[''A'', ''B''] \<noteq> [] \<and> list_all (\<lambda>l. CHR ''\<newline>'' \<notin> set l) [''A'', ''B'']
   \<and> split_lines (normalize (Lines [''A'', ''B''])) = [''A'', ''B'']
   \<and> fst (processImage first_pick_env ''file:///tmp/a.jpg'' initial_world) = Inr ''A\<newline>B''
   \<and> fst (processImage failing_pick_env ''file:///tmp/b.png'' initial_world) = Inl ProcessingError"
  using processImage_normalizes[of first_pick_env "''file:///tmp/a.jpg''" initial_world "[''A'', ''B'']"]
    processImage_normalizes[of failing_pick_env "''file:///tmp/b.png''" initial_world "[''A'', ''B'']"]
  by (simp add: first_pick_env_def failing_pick_env_def)

text \<open>
  Claim C4. The batch returns, when every recognition fulfils, the normalised texts of the
  images in the order of the images: the \<^verbatim>\<open>i\<close>-th text is that of the \<^verbatim>\<open>i\<close>-th image.
  When a recognition rejects, the batch throws and returns no list, not even a partial
  one. Neither outcome depends on the finishing times of the recognitions, and every
  recognition is started, in the order of the images. For the combinator itself: values
  that all fulfil are returned in index order for every order of completion, and the
  rejection that wins is the one that settles first (the earlier index among equal
  finishing times).
\<close>

theorem extraction_batch:
  "fst (extract_all e as w) =
     (if \<exists>a\<in>set as. isl (TextRecognition_recognize e (uri a)) then Inl ProcessingError
      else Inr (map (\<lambda>a. normalize (projr (TextRecognition_recognize e (uri a)))) as))
   \<and> fst (extract_all (e\<lparr>recognize_finish := f\<rparr>) as w) = fst (extract_all e as w)
   \<and> new_events w (snd (extract_all e as w)) = map (\<lambda>a. Call_recognize (uri a)) as
   \<and> settle_all finish (map Inr vs) = Inr vs
   \<and> (i < length outs \<and> outs ! i = Inl err \<and>
       (\<forall>j<length outs. isl (outs ! j) \<longrightarrow>
          finish i < finish j \<or> (finish i = finish j \<and> i \<le> j)) \<longrightarrow>
       settle_all finish outs = Inl err)"
  using settle_all_first_rejection[of i outs err finish]
  by (simp add: extract_all_run new_events_def settle_all_fulfilled)

theorem extraction_batch_witness:
  "settle_all (\<lambda>i. 3 - i) [Inr ''x'', Inl (Rejected ''first''), Inl (Rejected ''second'')] =
     (Inl (Rejected ''second'') :: exn + string list)
   \<and> fst (extract_all first_pick_env [jpeg_asset, png_asset] initial_world) =
       Inr [''A\<newline>B'', ''C'']
   \<and> fst (extract_all failing_pick_env [jpeg_asset, png_asset] initial_world) =
       Inl ProcessingError"
proof -
  let ?outs = "[Inr ''x'', Inl (Rejected ''first''), Inl (Rejected ''second'')] :: (exn + string) list"
  let ?finish = "\<lambda>i::nat. 3 - i"
  let ?both = "[jpeg_asset, png_asset]"
  note first = extraction_batch[of first_pick_env ?both initial_world
      "\<lambda>i. 0" ?finish "[]" 2 ?outs "Rejected ''second''"]
  note failing = extraction_batch[of failing_pick_env ?both initial_world
      "\<lambda>i. 0" ?finish "[]" 2 ?outs "Rejected ''second''"]
  have earliest: "2 < length ?outs \<and> ?outs ! 2 = Inl (Rejected ''second'') \<and>
          (\<forall>j<length ?outs. isl (?outs ! j) \<longrightarrow>
             ?finish 2 < ?finish j \<or> (?finish 2 = ?finish j \<and> 2 \<le> j))"
    by (auto simp: less_Suc_eq numeral_3_eq_3)
  from first earliest have a: "settle_all ?finish ?outs = Inl (Rejected ''second'')"
    by blast
  from first have "fst (extract_all first_pick_env ?both initial_world) =
      (if \<exists>a\<in>set ?both. isl (TextRecognition_recognize first_pick_env (uri a)) then Inl ProcessingError
       else Inr (map (\<lambda>a. normalize (projr (TextRecognition_recognize first_pick_env (uri a)))) ?both))"
    by blast
  also have "\<dots> = Inr [''A\<newline>B'', ''C'']"
    by (simp add: first_pick_env_def jpeg_asset_def png_asset_def normalize_def)
  finally have b: "fst (extract_all first_pick_env ?both initial_world) = Inr [''A\<newline>B'', ''C'']" .
  from failing have "fst (extract_all failing_pick_env ?both initial_world) =
      (if \<exists>a\<in>set ?both. isl (TextRecognition_recognize failing_pick_env (uri a)) then Inl ProcessingError
       else Inr (map (\<lambda>a. normalize (projr (TextRecognition_recognize failing_pick_env (uri a)))) ?both))"
    by blast
  also have "\<dots> = Inl ProcessingError"
    by (auto simp: failing_pick_env_def)
  finally have c: "fst (extract_all failing_pick_env ?both initial_world) = Inl ProcessingError" .
  from a b c show ?thesis by blast
qed

section \<open>Properties of the two actions\<close>

lemma exportToPDF_run:
  "exportToPDF e w = (Inr (), w\<lparr>loading := False, trace := trace w @ export_events e w\<rparr>)"
  by (auto simp: exportToPDF_def export_events_def io_defs split: sum.splits option.splits)

lemma pickImages_run:
  "pickImages e w =
     (Inr (),
      (case picked e of
         None \<Rightarrow> w
       | Some as \<Rightarrow>
           if batch_fails e as then w\<lparr>selectedImages := as\<rparr>
           else w\<lparr>selectedImages := as, extractedTexts := batch_texts e as\<rparr>)
      \<lparr>loading := False,
       trace := trace w @ permission_calls e @
         (if \<not> pick_advances e then [Call_alert PermissionNeeded]
          else
            [Set_loading True, Call_launchImageLibrary] @
            (case launchImageLibrary e of
               Inl err \<Rightarrow> [Call_alert ProcessingFailed]
             | Inr result \<Rightarrow>
                 (case assets result of
                    None \<Rightarrow> []
                  | Some as \<Rightarrow>
                      Set_selectedImages as # map (\<lambda>a. Call_recognize (uri a)) as @
                      (if batch_fails e as then [Call_alert ProcessingFailed]
                       else [Set_extractedTexts (batch_texts e as)])))) @
         [Set_loading False]\<rparr>)"
  by (auto simp: pickImages_def requestStoragePermission_run extract_all_run io_defs
        pick_advances_def picked_def batch_fails_def batch_texts_def
        split: sum.splits option.splits)

text \<open>
  Claim C6. Whatever the collaborators do (permission refused, picker cancelled or
  failing, a recognition rejecting, the converter or the clipboard failing, or every call
  succeeding) and whatever the state at the start, \<^verbatim>\<open>pickImages\<close> and \<^verbatim>\<open>exportToPDF\<close>
  complete without throwing, their last effect is \<^verbatim>\<open>setLoading(false)\<close>, and the busy
  flag is false in the state they leave.
\<close>

theorem busy_cleared_on_exit:
  "fst (pickImages e w) = Inr ()
   \<and> loading (snd (pickImages e w)) = False
   \<and> last (trace (snd (pickImages e w))) = Set_loading False
   \<and> fst (exportToPDF e w) = Inr ()
   \<and> loading (snd (exportToPDF e w)) = False
   \<and> last (trace (snd (exportToPDF e w))) = Set_loading False"
  by (simp add: pickImages_run exportToPDF_run export_events_def)

text \<open>
  Claim C8. With no image selected, \<^verbatim>\<open>exportToPDF\<close> returns without throwing; its only
  effects are the alert that no image is selected and \<^verbatim>\<open>setLoading(false)\<close>, so the
  converter is not called; the busy flag is false afterwards, and the images and the texts
  are what they were.
\<close>

theorem export_without_images:
  "selectedImages w = [] \<Longrightarrow>
   fst (exportToPDF e w) = Inr ()
   \<and> new_events w (snd (exportToPDF e w)) = [Call_alert NoImageSelected, Set_loading False]
   \<and> loading (snd (exportToPDF e w)) = False
   \<and> selectedImages (snd (exportToPDF e w)) = selectedImages w
   \<and> extractedTexts (snd (exportToPDF e w)) = extractedTexts w"
  by (simp add: exportToPDF_run export_events_def new_events_def)

theorem export_without_images_witness:
  "selectedImages initial_world = []
   \<and> snd (exportToPDF first_pick_env initial_world) =
       initial_world\<lparr>trace := [Call_alert NoImageSelected, Set_loading False]\<rparr>"
proof -
  have none: "selectedImages initial_world = []"
    by (simp add: initial_world_def)
  from export_without_images[OF none, of first_pick_env]
  have "new_events initial_world (snd (exportToPDF first_pick_env initial_world)) =
          [Call_alert NoImageSelected, Set_loading False]"
    and "loading (snd (exportToPDF first_pick_env initial_world)) = False"
    and "selectedImages (snd (exportToPDF first_pick_env initial_world)) = []"
    and "extractedTexts (snd (exportToPDF first_pick_env initial_world)) = extractedTexts initial_world"
    using none by simp_all
  then have "snd (exportToPDF first_pick_env initial_world) =
       initial_world\<lparr>trace := [Call_alert NoImageSelected, Set_loading False]\<rparr>"
    by (cases "snd (exportToPDF first_pick_env initial_world)")
       (simp add: initial_world_def new_events_def)
  with none show ?thesis by blast
qed

text \<open>
  Claim C10. For every starting state and every behaviour of the converter and of the
  clipboard, \<^verbatim>\<open>exportToPDF\<close> leaves the selected images and the extracted texts as they
  were, and the only setter it calls is \<^verbatim>\<open>setLoading\<close>: once with false when no image
  is selected, otherwise with true and then with false.
\<close>

theorem export_preserves_selection:
  "selectedImages (snd (exportToPDF e w)) = selectedImages w
   \<and> extractedTexts (snd (exportToPDF e w)) = extractedTexts w
   \<and> filter is_setter (new_events w (snd (exportToPDF e w))) =
       (if selectedImages w = [] then [Set_loading False]
        else [Set_loading True, Set_loading False])"
  by (simp add: exportToPDF_run export_events_def new_events_def is_setter_def
        split: sum.splits option.splits)

text \<open>
  Claim C7. While the busy flag is true both buttons are disabled: pressing the pick
  button or the export button returns at once and leaves the whole state as it was, the
  trace of collaborator calls included.
\<close>

theorem busy_blocks_triggers:
  "loading w \<Longrightarrow> press_pick e w = (Inr (), w) \<and> press_export e w = (Inr (), w)"
  by (simp add: press_pick_def press_export_def)

theorem busy_blocks_triggers_witness:
  "loading busy_world
   \<and> press_pick first_pick_env busy_world = (Inr (), busy_world)
   \<and> press_export first_pick_env busy_world = (Inr (), busy_world)"
proof -
  have busy: "loading busy_world"
    by (simp add: busy_world_def)
  from busy_blocks_triggers[OF busy, of first_pick_env] busy show ?thesis
    by blast
qed

lemma first_pick_world:
  "snd (press_pick first_pick_env initial_world) =
     \<lparr>selectedImages = [jpeg_asset, png_asset],
      extractedTexts = [''A\<newline>B'', ''C''],
      loading = False,
      trace = [Set_loading True, Call_launchImageLibrary,
               Set_selectedImages [jpeg_asset, png_asset],
               Call_recognize ''file:///tmp/a.jpg'', Call_recognize ''file:///tmp/b.png'',
               Set_extractedTexts [''A\<newline>B'', ''C''],
               Set_loading False]\<rparr>"
  by (simp add: press_pick_def pickImages_run initial_world_def first_pick_env_def
        picked_def pick_advances_def batch_fails_def batch_texts_def permission_calls_def
        normalize_def jpeg_asset_def png_asset_def)

text \<open>
  Claim C1, which the code does not keep. \<^verbatim>\<open>pickImages\<close> stores the new images (line 91)
  before it awaits the extraction batch; when the batch rejects, line 95 is skipped and
  the handler of line 97 only shows an alert. After a first pick of two images and a
  second pick of one image whose recognition rejects, the state holds one image and the
  two texts of the first pick.
\<close>

theorem failed_pick_keeps_stale_texts:
  "selectedImages (snd (press_pick failing_pick_env (snd (press_pick first_pick_env initial_world))))
     = [png_asset]
   \<and> extractedTexts (snd (press_pick failing_pick_env (snd (press_pick first_pick_env initial_world))))
     = [''A\<newline>B'', ''C'']
   \<and> \<not> aligned (snd (press_pick failing_pick_env (snd (press_pick first_pick_env initial_world))))"
  unfolding first_pick_world
  by (simp add: press_pick_def pickImages_run failing_pick_env_def
        first_pick_env_def picked_def pick_advances_def batch_fails_def aligned_def)

section \<open>Further properties of the state\<close>

text \<open>
  Where the alignment of texts and images is kept. It holds at the start; the export, the
  clear action and the two guarded buttons keep it; a pick keeps it unless it stores new
  images and its extraction batch then fails. A pick whose batch succeeds replaces both
  sequences, and its \<^verbatim>\<open>i\<close>-th text is the normalised answer of the recognizer for its
  \<^verbatim>\<open>i\<close>-th image.
\<close>

theorem alignment_kept_without_failed_batch:
  "aligned initial_world
   \<and> (aligned w \<longrightarrow>
        aligned (snd (exportToPDF e w)) \<and> aligned (snd (press_export e w))
        \<and> aligned (snd (clearResults w)) \<and> aligned (snd (press_clear w))
        \<and> ((case picked e of None \<Rightarrow> True | Some as \<Rightarrow> \<not> batch_fails e as) \<longrightarrow>
             aligned (snd (pickImages e w)) \<and> aligned (snd (press_pick e w))))
   \<and> (picked e = Some as \<and> \<not> batch_fails e as \<longrightarrow>
        selectedImages (snd (pickImages e w)) = as
        \<and> extractedTexts (snd (pickImages e w)) =
            map (\<lambda>a. normalize (projr (TextRecognition_recognize e (uri a)))) as)"
  by (auto simp: aligned_def initial_world_def exportToPDF_run press_export_def
        clearResults_def press_clear_def press_pick_def pickImages_run batch_texts_def io_defs
        split: option.splits)

theorem alignment_kept_without_failed_batch_witness:
  "aligned initial_world
   \<and> picked first_pick_env = Some [jpeg_asset, png_asset]
   \<and> \<not> batch_fails first_pick_env [jpeg_asset, png_asset]
   \<and> aligned (snd (pickImages first_pick_env initial_world))
   \<and> extractedTexts (snd (pickImages first_pick_env initial_world)) = [''A\<newline>B'', ''C'']"
proof -
  let ?both = "[jpeg_asset, png_asset]"
  have start: "aligned initial_world"
    by (simp add: aligned_def initial_world_def)
  have got: "picked first_pick_env = Some ?both"
    by (simp add: picked_def pick_advances_def first_pick_env_def)
  have fine: "\<not> batch_fails first_pick_env ?both"
    by (simp add: batch_fails_def first_pick_env_def)
  from alignment_kept_without_failed_batch[of initial_world first_pick_env ?both] start got fine
  have kept: "aligned (snd (pickImages first_pick_env initial_world))"
    and texts: "extractedTexts (snd (pickImages first_pick_env initial_world)) =
      map (\<lambda>a. normalize (projr (TextRecognition_recognize first_pick_env (uri a)))) ?both"
    by simp_all
  have "map (\<lambda>a. normalize (projr (TextRecognition_recognize first_pick_env (uri a)))) ?both =
          [''A\<newline>B'', ''C'']"
    by (simp add: first_pick_env_def jpeg_asset_def png_asset_def normalize_def)
  with texts have "extractedTexts (snd (pickImages first_pick_env initial_world)) =
          [''A\<newline>B'', ''C'']"
    by simp
  with start got fine kept show ?thesis by blast
qed

text \<open>
  Clearing twice is clearing once: after \<^verbatim>\<open>clearResults\<close> both sequences are empty and
  the busy flag is untouched, and a second \<^verbatim>\<open>clearResults\<close> leaves the three cells as the
  first one left them.
\<close>

theorem clearResults_idempotent:
  "fst (clearResults w) = Inr ()
   \<and> selectedImages (snd (clearResults w)) = []
   \<and> extractedTexts (snd (clearResults w)) = []
   \<and> loading (snd (clearResults w)) = loading w
   \<and> selectedImages (snd (clearResults (snd (clearResults w)))) =
       selectedImages (snd (clearResults w))
   \<and> extractedTexts (snd (clearResults (snd (clearResults w)))) =
       extractedTexts (snd (clearResults w))
   \<and> loading (snd (clearResults (snd (clearResults w)))) = loading (snd (clearResults w))"
  by (simp add: clearResults_def io_defs)

end
